theory Spec2Isabelle
  imports Main "HOL-Library.Word"
begin

unbundle bit_operations_syntax

section \<open>The two flash-resident constants of \<^verbatim>\<open>dataSliderJS.h\<close>\<close>

subsection \<open>The script as a string\<close>

text \<open>
  The first constant is initialised by a C++ raw string literal
  \<^verbatim>\<open>R"=====( ... )====="\<close>.  Every character between the opening parenthesis
  and the closing delimiter belongs to the string.  In the header the opening
  parenthesis is followed by a line break, then come the eleven lines of the minified
  script, and a line break precedes the closing delimiter; the file has LF line ends.
  \<open>JS_SLIDER_script\<close> is the text of the eleven lines, one line of the header per
  line below (a single quote of the script is written \<^verbatim>\<open>\'\<close>), and
  \<open>JS_SLIDER\<close> is the content of the literal.
\<close>

definition JS_SLIDER_script :: string where
  \<open>JS_SLIDER_script =
     ''function rkmd_rangeSlider(selector){var self,slider_width,slider_offset,curnt,sliderDiscrete,range,slider;self=$(selector);slider_width=self.width();slider_offset=self.offset().left;sliderDiscrete=self;sliderDiscrete.each(function(i,v){curnt=$(this);curnt.append(sliderDiscrete_tmplt());range=curnt.find(\'input[type="range"]\');slider=curnt.find(".slider");slider_fill=slider.find(".slider-fill");slider_handle=slider.find(".slider-handle");slider_label=slider.find(".slider-label");var range_val=parseInt(range.val());slider_fill.css("width",range_val+"%");slider_handle.css("left",range_val+"%");slider_label.find("span").text(range_val);});self.on("mousedown touchstart",".slider-handle",function(e){if(e.button===2){return false;}\<newline>'' @
     ''var parents=$(this).parents(".rkmd-slider");var slider_width=parents.width();var slider_offset=parents.offset().left;var check_range=parents.find(\'input[type="range"]\').is(":disabled");if(check_range===true){return false;}\<newline>'' @
     ''$(this).addClass("is-active");var moveFu=function(e){var pageX=e.pageX||e.changedTouches[0].pageX;var slider_new_width=pageX-slider_offset;if(slider_new_width<=slider_width&&!(slider_new_width<"0")){slider_move(parents,slider_new_width,slider_width,true);}};var upFu=function(e){$(this).off(handlers);parents.find(".is-active").removeClass("is-active");};var handlers={mousemove:moveFu,touchmove:moveFu,mouseup:upFu,touchend:upFu};$(document).on(handlers);});self.on("mousedown touchstart",".slider",function(e){if(e.button===2){return false;}\<newline>'' @
     ''var parents=$(this).parents(".rkmd-slider");var slider_width=parents.width();var slider_offset=parents.offset().left;var check_range=parents.find(\'input[type="range"]\').is(":disabled");if(check_range===true){return false;}\<newline>'' @
     ''var slider_new_width=e.pageX-slider_offset;if(slider_new_width<=slider_width&&!(slider_new_width<"0")){slider_move(parents,slider_new_width,slider_width,true);}\<newline>'' @
     ''var upFu=function(e){$(this).off(handlers);};var handlers={mouseup:upFu,touchend:upFu};$(document).on(handlers);});}\<newline>'' @
     ''function sliderDiscrete_tmplt(){var tmplt=\'<div class="slider">\'+\<newline>'' @
     ''\'<div class="slider-fill"></div>\'+\<newline>'' @
     ''\'<div class="slider-handle"><div class="slider-label"><span>0</span></div></div>\'+\<newline>'' @
     ''"</div>";return tmplt;}\<newline>'' @
     ''function slider_move(parents,newW,sliderW,send){var slider_new_val=parseInt(Math.round((newW/sliderW)*100));var slider_fill=parents.find(".slider-fill");var slider_handle=parents.find(".slider-handle");var range=parents.find(\'input[type="range"]\');slider_fill.css("width",slider_new_val+"%");slider_handle.css({left:slider_new_val+"%",transition:"none","-webkit-transition":"none","-moz-transition":"none"});range.val(slider_new_val);if(parents.find(".slider-handle span").text()!=slider_new_val){parents.find(".slider-handle span").text(slider_new_val);var number=parents.attr("id").substring(2);if(send)websock.send("slvalue:"+slider_new_val+":"+number);}}''\<close>

definition JS_SLIDER :: string where
  "JS_SLIDER = ''\<newline>'' @ JS_SLIDER_script @ ''\<newline>''"

text \<open>
  A \<^verbatim>\<open>const char[]\<close> initialised by a string literal holds the characters of
  the literal followed by a terminating NUL.
\<close>

definition JS_SLIDER_array :: "char list" where
  "JS_SLIDER_array = JS_SLIDER @ [CHR 0x00]"

text \<open>
  A consumer of such an array finds the end of the string by scanning for the NUL, as
  the C library's \<^verbatim>\<open>strlen\<close> does.  \<open>strlen\<close> is the number of characters
  before the first NUL; a scan that runs off the array has no result.
\<close>

fun strlen :: "char list \<Rightarrow> nat option" where
  "strlen [] = None"
| "strlen (c # cs) = (if c = CHR 0x00 then Some 0 else map_option Suc (strlen cs))"

subsection \<open>The compressed script as a byte array\<close>

text \<open>
  The second constant is \<^verbatim>\<open>const uint8_t JS_SLIDER_GZIP[869]\<close>.  The
  initialiser list is kept as the integer literals the source writes; the array itself
  follows the rules of aggregate initialisation: an initialiser that does not fit a
  \<^verbatim>\<open>uint8_t\<close> or a list longer than the declared size is rejected by the
  compiler, and a shorter list is completed with zeros.
\<close>

definition JS_SLIDER_GZIP_init :: "int list" where
  "JS_SLIDER_GZIP_init = [
     31, 139, 8, 0, 19, 56, 231, 94, 2, 255, 237, 86, 77, 143, 155, 48, 16, 189, 231, 87, 100, 173, 237, 6,
     186, 196, 155, 238, 49, 196, 185, 180, 170, 212, 67, 79, 173, 212, 74, 171, 85, 228, 128, 89, 172, 16, 131, 176,
     73, 218, 102, 243, 223, 59, 254, 128, 0, 33, 171, 109, 79, 61, 244, 4, 246, 60, 143, 103, 222, 60, 123, 156,
     84, 34, 82, 60, 23, 227, 114, 179, 141, 87, 37, 21, 79, 236, 75, 198, 99, 86, 122, 146, 101, 44, 82, 121,
     233, 31, 118, 180, 28, 195, 40, 9, 164, 177, 172, 246, 60, 86, 105, 61, 200, 147, 68, 50, 21, 68, 85, 41,
     148, 155, 251, 192, 101, 84, 50, 197, 2, 227, 206, 77, 134, 218, 3, 185, 62, 185, 13, 219, 222, 136, 182, 98,
     243, 235, 53, 22, 235, 218, 154, 236, 191, 231, 227, 140, 37, 42, 236, 238, 99, 16, 189, 57, 204, 104, 148, 122,
     137, 203, 206, 227, 193, 206, 63, 152, 24, 33, 4, 149, 114, 233, 135, 102, 132, 105, 81, 48, 17, 123, 221, 197,
     43, 181, 45, 50, 216, 204, 15, 77, 6, 196, 66, 19, 14, 192, 9, 23, 69, 165, 30, 212, 207, 130, 17, 100,
     172, 232, 113, 82, 71, 220, 6, 34, 108, 231, 80, 147, 78, 194, 179, 140, 216, 255, 46, 100, 170, 45, 39, 92,
     74, 69, 156, 177, 97, 164, 181, 157, 176, 25, 93, 179, 11, 78, 141, 9, 144, 186, 122, 38, 208, 213, 142, 102,
     164, 160, 165, 100, 159, 132, 242, 204, 20, 134, 41, 157, 102, 43, 66, 28, 73, 233, 33, 83, 9, 20, 52, 235,
     110, 209, 155, 126, 128, 22, 168, 203, 113, 9, 103, 34, 112, 81, 201, 130, 10, 228, 99, 197, 126, 184, 173, 53,
     218, 15, 143, 126, 104, 203, 43, 60, 180, 205, 43, 201, 226, 124, 47, 198, 42, 175, 162, 84, 42, 90, 130, 235,
     126, 234, 65, 83, 83, 230, 31, 120, 226, 49, 188, 174, 148, 202, 5, 33, 228, 222, 63, 64, 245, 160, 4, 227,
     132, 102, 146, 133, 199, 145, 206, 29, 50, 102, 66, 201, 186, 238, 216, 141, 129, 40, 45, 249, 105, 83, 37, 163,
     242, 182, 36, 29, 176, 81, 101, 11, 224, 148, 89, 35, 186, 226, 212, 184, 40, 101, 209, 198, 30, 167, 6, 245,
     130, 126, 48, 135, 120, 230, 49, 151, 116, 157, 177, 24, 130, 129, 196, 218, 46, 8, 81, 101, 197, 206, 210, 171,
     83, 162, 113, 252, 62, 163, 186, 28, 92, 78, 41, 176, 179, 99, 46, 161, 109, 190, 99, 31, 43, 210, 230, 204,
     114, 242, 196, 190, 19, 134, 205, 247, 249, 25, 106, 153, 234, 125, 226, 175, 154, 120, 38, 31, 102, 143, 214, 212,
     206, 89, 176, 125, 67, 12, 152, 166, 29, 42, 116, 192, 125, 220, 130, 180, 233, 188, 185, 185, 58, 71, 160, 25,
     242, 253, 131, 155, 214, 177, 122, 142, 172, 160, 15, 237, 222, 61, 134, 141, 240, 120, 52, 241, 85, 69, 47, 195,
     154, 22, 8, 205, 179, 170, 41, 225, 188, 119, 202, 128, 112, 139, 41, 92, 50, 189, 247, 0, 133, 118, 131, 218,
     7, 57, 24, 137, 106, 236, 220, 18, 27, 24, 165, 182, 39, 12, 162, 42, 230, 58, 40, 107, 133, 235, 197, 140,
     142, 225, 181, 23, 231, 81, 181, 133, 40, 124, 45, 248, 83, 104, 175, 63, 5, 255, 229, 223, 75, 239, 76, 156,
     78, 212, 255, 130, 60, 71, 127, 160, 206, 65, 165, 253, 133, 142, 142, 163, 122, 175, 241, 112, 79, 51, 231, 223,
     252, 147, 201, 34, 230, 187, 113, 164, 101, 79, 144, 19, 194, 114, 114, 59, 26, 152, 183, 45, 106, 185, 184, 3,
     203, 37, 136, 187, 160, 151, 3, 38, 219, 139, 150, 11, 221, 5, 150, 179, 197, 157, 249, 90, 103, 141, 75, 100,
     255, 80, 232, 170, 108, 98, 60, 207, 167, 91, 7, 40, 192, 55, 199, 61, 124, 129, 34, 247, 90, 57, 149, 167,
     211, 244, 62, 83, 149, 226, 50, 175, 64, 137, 158, 94, 122, 231, 150, 250, 111, 223, 205, 102, 126, 71, 227, 166,
     91, 247, 238, 140, 110, 187, 110, 129, 93, 203, 30, 134, 55, 61, 187, 233, 196, 175, 57, 19, 23, 123, 114, 55,
     183, 75, 141, 249, 160, 207, 226, 252, 28, 11, 218, 164, 66, 114, 77, 232, 28, 137, 92, 64, 67, 69, 211, 61,
     91, 111, 184, 154, 158, 76, 232, 100, 219, 230, 191, 6, 12, 71, 247, 52, 50, 15, 136, 238, 46, 230, 244, 190,
     196, 196, 184, 253, 22, 240, 175, 72, 111, 249, 225, 213, 107, 251, 251, 106, 126, 69, 181, 93, 195, 67, 172, 246,
     65, 149, 42, 225, 74, 135, 59, 5, 203, 106, 45, 85, 201, 197, 147, 119, 111, 66, 52, 106, 129, 204, 101, 30,
     109, 176, 30, 192, 35, 37, 3, 63, 21, 155, 163, 219, 62, 113, 48, 101, 61, 235, 174, 243, 27, 27, 117, 74,
     231, 52, 11, 0, 0]"

definition JS_SLIDER_GZIP_size :: nat where
  "JS_SLIDER_GZIP_size = 869"

definition fits_uint8 :: "int \<Rightarrow> bool" where
  "fits_uint8 v = (0 \<le> v \<and> v \<le> 255)"

definition array_init :: "nat \<Rightarrow> int list \<Rightarrow> 8 word list option" where
  "array_init n vs =
     (if length vs \<le> n \<and> list_all fits_uint8 vs
      then Some (map word_of_int vs @ replicate (n - length vs) 0)
      else None)"

definition JS_SLIDER_GZIP :: "8 word list" where
  "JS_SLIDER_GZIP = the (array_init JS_SLIDER_GZIP_size JS_SLIDER_GZIP_init)"

section \<open>Decompression of a gzip member\<close>

text \<open>
  Modelled from the spec: the header holds data only, and the decompressor that the
  specification calls a standard gzip decompressor is not part of the repository.  The
  functions of this section model that decompressor from the two documents that define
  the format: RFC 1952 (the gzip member: header, DEFLATE stream, CRC-32 and size
  trailer) and RFC 1951 (DEFLATE: stored blocks, blocks with fixed and with dynamic
  Huffman codes, length and distance codes).  Every way in which a member can be
  malformed is a value of \<open>gzip_error\<close>.
\<close>

datatype gzip_error =
    Truncated
  | Bad_Magic
  | Bad_Method
  | Bad_Flags
  | Bad_Header_Crc
  | Bad_Block_Type
  | Bad_Stored_Length
  | Bad_Code_Lengths
  | Bad_Symbol
  | Bad_Distance
  | Crc_Mismatch
  | Size_Mismatch
  | Trailing_Data

subsection \<open>CRC-32 (RFC 1952, section 8)\<close>

text \<open>
  The CRC register is a list of 32 bits, least significant bit first.  One step shifts
  the register right by one bit and, when the bit shifted out is set, adds the
  polynomial \<^verbatim>\<open>0xedb88320\<close>; a byte is added to the low eight bits of the
  register and followed by eight steps.  The register starts with all bits set, and
  the result is its complement.
\<close>

definition crc_poly :: "bool list" where
  "crc_poly =
     [False, False, False, False, False, True, False, False,
      True, True, False, False, False, False, False, True,
      False, False, False, True, True, True, False, True,
      True, False, True, True, False, True, True, True]"

fun bxor :: "bool \<Rightarrow> bool \<Rightarrow> bool" where
  "bxor True True = False"
| "bxor True False = True"
| "bxor False b = b"

fun xor_bits :: "bool list \<Rightarrow> bool list \<Rightarrow> bool list" where
  "xor_bits (a # as) (b # bs) = bxor a b # xor_bits as bs"
| "xor_bits [] bs = bs"
| "xor_bits as [] = as"

fun crc_step :: "bool list \<Rightarrow> bool list" where
  "crc_step [] = []"
| "crc_step (True # c) = xor_bits crc_poly (c @ [False])"
| "crc_step (False # c) = c @ [False]"

fun char_bits :: "char \<Rightarrow> bool list" where
  "char_bits (Char b0 b1 b2 b3 b4 b5 b6 b7) = [b0, b1, b2, b3, b4, b5, b6, b7]"

definition crc_byte :: "bool list \<Rightarrow> char \<Rightarrow> bool list" where
  "crc_byte c b = (crc_step ^^ 8) (xor_bits c (char_bits b))"

fun update_crc :: "bool list \<Rightarrow> char list \<Rightarrow> bool list" where
  "update_crc c [] = c"
| "update_crc c (b # bs) = update_crc (crc_byte c b) bs"

definition crc32 :: "char list \<Rightarrow> bool list" where
  "crc32 bs = map Not (update_crc (replicate 32 True) bs)"

subsection \<open>Bit input (RFC 1951, section 3.1.1)\<close>

text \<open>
  Bytes are consumed from the least significant bit upwards; a field of \<open>n\<close> bits
  that is not a Huffman code is stored least significant bit first.
\<close>

definition bits_of_byte :: "8 word \<Rightarrow> bool list" where
  "bits_of_byte w = map (bit w) [0..<8]"

definition bits_of_bytes :: "8 word list \<Rightarrow> bool list" where
  "bits_of_bytes ws = concat (map bits_of_byte ws)"

definition int_bits8 :: "int \<Rightarrow> bool list" where
  "int_bits8 v = map (bit v) [0..<8]"

definition byte_char :: "8 word \<Rightarrow> char" where
  "byte_char w = Char (bit w 0) (bit w 1) (bit w 2) (bit w 3) (bit w 4) (bit w 5) (bit w 6) (bit w 7)"

fun take_bits :: "nat \<Rightarrow> bool list \<Rightarrow> gzip_error + (bool list \<times> bool list)" where
  "take_bits 0 bs = Inr ([], bs)"
| "take_bits (Suc n) [] = Inl Truncated"
| "take_bits (Suc n) (b # bs) =
     (case take_bits n bs of
        Inl e \<Rightarrow> Inl e
      | Inr (v, r) \<Rightarrow> Inr (b # v, r))"

fun read_bits :: "nat \<Rightarrow> bool list \<Rightarrow> gzip_error + ('a::comm_semiring_1 \<times> bool list)" where
  "read_bits 0 bs = Inr (0, bs)"
| "read_bits (Suc n) [] = Inl Truncated"
| "read_bits (Suc n) (b # bs) =
     (case read_bits n bs of
        Inl e \<Rightarrow> Inl e
      | Inr (v, r) \<Rightarrow> Inr (of_bool b + 2 * v, r))"

fun read_many :: "nat \<Rightarrow> nat \<Rightarrow> bool list \<Rightarrow> gzip_error + ('a::comm_semiring_1 list \<times> bool list)" where
  "read_many 0 w bs = Inr ([], bs)"
| "read_many (Suc k) w bs =
     (case read_bits w bs of
        Inl e \<Rightarrow> Inl e
      | Inr (v, r) \<Rightarrow>
          (case read_many k w r of
             Inl e \<Rightarrow> Inl e
           | Inr (vs, r') \<Rightarrow> Inr (v # vs, r')))"

text \<open>
  The input is a whole number of bytes, so the bits left over up to the next byte
  boundary are as many as the remaining length exceeds a multiple of eight.
\<close>

definition align :: "bool list \<Rightarrow> bool list" where
  "align bs = drop (length bs mod 8) bs"

fun nth_opt :: "'a list \<Rightarrow> nat \<Rightarrow> 'a option" where
  "nth_opt [] n = None"
| "nth_opt (x # xs) 0 = Some x"
| "nth_opt (x # xs) (Suc n) = nth_opt xs n"

subsection \<open>Huffman codes from code lengths (RFC 1951, section 3.2.2)\<close>

datatype htree = Empty | Leaf int | Node htree htree

fun insert_code :: "bool list \<Rightarrow> int \<Rightarrow> htree \<Rightarrow> htree option" where
  "insert_code [] s Empty = Some (Leaf s)"
| "insert_code [] s t = None"
| "insert_code (b # bs) s (Leaf x) = None"
| "insert_code (b # bs) s Empty =
     (if b then map_option (Node Empty) (insert_code bs s Empty)
      else map_option (\<lambda>l. Node l Empty) (insert_code bs s Empty))"
| "insert_code (b # bs) s (Node l r) =
     (if b then map_option (Node l) (insert_code bs s r)
      else map_option (\<lambda>l'. Node l' r) (insert_code bs s l))"

text \<open>The \<open>n\<close>-bit code \<open>c\<close>, most significant bit first.\<close>

fun code_bits :: "nat \<Rightarrow> int \<Rightarrow> bool list" where
  "code_bits 0 c = []"
| "code_bits (Suc n) c = code_bits n (c div 2) @ [odd c]"

definition bl_count :: "nat list \<Rightarrow> nat \<Rightarrow> int" where
  "bl_count ls n = (if n = 0 then 0 else int (count_list ls n))"

text \<open>\<open>next_codes ls n\<close> lists the smallest code of each length from 0 to \<open>n\<close>.\<close>

fun next_codes :: "nat list \<Rightarrow> nat \<Rightarrow> int list" where
  "next_codes ls 0 = [0]"
| "next_codes ls (Suc n) =
     (let t = next_codes ls n in t @ [2 * (last t + bl_count ls n)])"

fun assign_codes :: "nat list \<Rightarrow> int \<Rightarrow> int list \<Rightarrow> htree \<Rightarrow> htree option" where
  "assign_codes [] s nc t = Some t"
| "assign_codes (l # ls) s nc t =
     (if l = 0 then assign_codes ls (s + 1) nc t
      else (case nth_opt nc l of
              None \<Rightarrow> None
            | Some c \<Rightarrow>
                (case insert_code (code_bits l c) s t of
                   None \<Rightarrow> None
                 | Some t' \<Rightarrow> assign_codes ls (s + 1) (nc[l := c + 1]) t')))"

text \<open>
  The code space used by a list of code lengths, in units of \<open>2\<^sup>-\<^sup>1\<^sup>5\<close>: a code
  is complete at \<open>2\<^sup>1\<^sup>5\<close> and over-subscribed above.  The reference
  implementation rejects an over-subscribed code and an incomplete one, except that a
  literal/length or distance code may consist of a single code of one bit or, for
  distances, of no code at all.
\<close>

definition code_space :: "nat list \<Rightarrow> int" where
  "code_space ls = sum_list (map (\<lambda>l. 2 ^ (15 - l)) (filter (\<lambda>l. 0 < l) ls))"

definition build_tree :: "bool \<Rightarrow> nat list \<Rightarrow> gzip_error + htree" where
  "build_tree single ls =
     (if list_ex (\<lambda>l. 15 < l) ls then Inl Bad_Code_Lengths
      else if code_space ls = 2 ^ 15 \<or> filter (\<lambda>l. 0 < l) ls = []
              \<or> (single \<and> filter (\<lambda>l. 0 < l) ls = [1])
      then (case assign_codes ls 0 (next_codes ls 15) Empty of
              None \<Rightarrow> Inl Bad_Code_Lengths
            | Some t \<Rightarrow> Inr t)
      else Inl Bad_Code_Lengths)"

text \<open>
  Decoding reads one bit at a time and descends; the first bit is read before the first
  test, so a symbol always consumes input.
\<close>

fun child :: "htree \<Rightarrow> bool \<Rightarrow> htree" where
  "child (Node l r) b = (if b then r else l)"
| "child t b = Empty"

fun decode_sym :: "htree \<Rightarrow> bool list \<Rightarrow> gzip_error + (int \<times> bool list)" where
  "decode_sym t [] = Inl Truncated"
| "decode_sym t (b # bs) =
     (case child t b of
        Empty \<Rightarrow> Inl Bad_Symbol
      | Leaf s \<Rightarrow> Inr (s, bs)
      | Node l r \<Rightarrow> decode_sym (Node l r) bs)"

subsection \<open>Compressed blocks (RFC 1951, section 3.2.5)\<close>

text \<open>
  Extra bits and base value of the length symbols 257 to 285 and of the distance
  symbols 0 to 29.
\<close>

definition length_codes :: "(nat \<times> int) list" where
  "length_codes =
     [(0, 3), (0, 4), (0, 5), (0, 6), (0, 7), (0, 8), (0, 9), (0, 10),
      (1, 11), (1, 13), (1, 15), (1, 17), (2, 19), (2, 23), (2, 27), (2, 31),
      (3, 35), (3, 43), (3, 51), (3, 59), (4, 67), (4, 83), (4, 99), (4, 115),
      (5, 131), (5, 163), (5, 195), (5, 227), (0, 258)]"

definition distance_codes :: "(nat \<times> int) list" where
  "distance_codes =
     [(0, 1), (0, 2), (0, 3), (0, 4), (1, 5), (1, 7), (2, 9), (2, 13),
      (3, 17), (3, 25), (4, 33), (4, 49), (5, 65), (5, 97), (6, 129), (6, 193),
      (7, 257), (7, 385), (8, 513), (8, 769), (9, 1025), (9, 1537), (10, 2049), (10, 3073),
      (11, 4097), (11, 6145), (12, 8193), (12, 12289), (13, 16385), (13, 24577)]"

text \<open>
  The meaning of a symbol of the literal/length code and of the distance code.  Symbols
  286 and 287 of the literal/length code and 30 and 31 of the distance code take part in
  the construction of the fixed code but must not occur in the data.
\<close>

datatype lit_len = Literal char | End_Of_Block | Match_Length nat int | Bad_Lit_Len

definition lit_len_of :: "int \<Rightarrow> lit_len" where
  "lit_len_of s =
     (if s < 0 then Bad_Lit_Len
      else if s < 256 then Literal (char_of s)
      else if s = 256 then End_Of_Block
      else (case nth_opt length_codes (nat (s - 257)) of
              None \<Rightarrow> Bad_Lit_Len
            | Some (x, b) \<Rightarrow> Match_Length x b))"

definition distance_of :: "int \<Rightarrow> (nat \<times> int) option" where
  "distance_of s = (if s < 0 then None else nth_opt distance_codes (nat s))"

text \<open>
  The output written so far is kept last byte first.  A match of length \<open>n\<close> at
  distance \<open>d\<close> appends, \<open>n\<close> times, the byte \<open>d\<close> positions back; source and
  destination may overlap.
\<close>

fun lz_copy :: "nat \<Rightarrow> nat \<Rightarrow> char list \<Rightarrow> gzip_error + char list" where
  "lz_copy 0 d out = Inr out"
| "lz_copy (Suc n) 0 out = Inl Bad_Distance"
| "lz_copy (Suc n) (Suc d) out =
     (case nth_opt out d of
        None \<Rightarrow> Inl Bad_Distance
      | Some x \<Rightarrow> lz_copy n (Suc d) (x # out))"

lemma read_bits_length:
  "read_bits n bs = Inr (v, r) \<Longrightarrow> length r \<le> length bs"
  by (induction n bs arbitrary: v r rule: read_bits.induct)
     (fastforce split: sum.splits)+

lemma decode_sym_length:
  "decode_sym t bs = Inr (s, r) \<Longrightarrow> length r < length bs"
  by (induction t bs rule: decode_sym.induct)
     (fastforce split: htree.splits)+

function inflate_codes ::
  "htree \<Rightarrow> htree \<Rightarrow> bool list \<Rightarrow> char list \<Rightarrow> gzip_error + (char list \<times> bool list)" where
  "inflate_codes lt dt bs out =
     (case decode_sym lt bs of
        Inl e \<Rightarrow> Inl e
      | Inr (s, r) \<Rightarrow>
          (case lit_len_of s of
             Literal c \<Rightarrow> inflate_codes lt dt r (c # out)
           | End_Of_Block \<Rightarrow> Inr (out, r)
           | Bad_Lit_Len \<Rightarrow> Inl Bad_Symbol
           | Match_Length xl bl \<Rightarrow>
               (case read_bits xl r of
                  Inl e \<Rightarrow> Inl e
                | Inr (el, r1) \<Rightarrow>
                    (case decode_sym dt r1 of
                       Inl e \<Rightarrow> Inl e
                     | Inr (ds, r2) \<Rightarrow>
                         (case distance_of ds of
                            None \<Rightarrow> Inl Bad_Symbol
                          | Some (xd, bd) \<Rightarrow>
                              (case read_bits xd r2 of
                                 Inl e \<Rightarrow> Inl e
                               | Inr (ed, r3) \<Rightarrow>
                                   (case lz_copy (nat (bl + el)) (nat (bd + ed)) out of
                                      Inl e \<Rightarrow> Inl e
                                    | Inr out' \<Rightarrow> inflate_codes lt dt r3 out')))))))"
  by pat_completeness auto
termination
proof (relation "measure (\<lambda>(lt, dt, bs, out). length bs)")
  show "wf (measure (\<lambda>(lt, dt, bs, out). length bs))"
    by simp
next
  fix lt dt :: htree and bs r :: "bool list" and out :: "char list" and x s c
  assume "decode_sym lt bs = Inr x" and "(s, r) = x"
  then have "length r < length bs"
    using decode_sym_length [of lt bs s r] by simp
  then show "((lt, dt, r, c # out), lt, dt, bs, out)
      \<in> measure (\<lambda>(lt, dt, bs, out). length bs)"
    by simp
next
  fix lt dt :: htree and bs r r1 r2 r3 :: "bool list" and out out' :: "char list"
    and x s xl z el u ds xd q ed
  assume "decode_sym lt bs = Inr x" and "(s, r) = x"
    and "read_bits xl r = Inr z" and "(el :: int, r1) = z"
    and "decode_sym dt r1 = Inr u" and "(ds, r2) = u"
    and "read_bits xd r2 = Inr q" and "(ed :: int, r3) = q"
  then have "length r < length bs" and "length r1 \<le> length r"
    and "length r2 < length r1" and "length r3 \<le> length r2"
    using decode_sym_length [of lt bs s r] read_bits_length [of xl r el r1]
      decode_sym_length [of dt r1 ds r2] read_bits_length [of xd r2 ed r3]
    by simp_all
  then show "((lt, dt, r3, out'), lt, dt, bs, out)
      \<in> measure (\<lambda>(lt, dt, bs, out). length bs)"
    by simp
qed

declare inflate_codes.simps [simp del]

subsection \<open>Copying a match through a window\<close>

text \<open>
  The bytes of a match are the last \<open>d\<close> bytes of the output, oldest first, taken
  cyclically.  \<open>grab\<close> collects that window, \<open>put\<close> appends bytes of the window
  to the output until the match or the window is used up, and the copy goes on from
  the output so extended.  \<open>lz_copy_window\<close> shows that this is the copy byte by
  byte of \<open>lz_copy\<close>; it is the equation by which matches are evaluated.
\<close>

fun grab :: "nat \<Rightarrow> 'a list \<Rightarrow> 'a list \<Rightarrow> 'a list option" where
  "grab 0 xs acc = Some acc"
| "grab (Suc d) [] acc = None"
| "grab (Suc d) (x # xs) acc = grab d xs (x # acc)"

fun put :: "nat \<Rightarrow> 'a list \<Rightarrow> 'a list \<Rightarrow> nat \<times> 'a list" where
  "put 0 w out = (0, out)"
| "put (Suc n) [] out = (Suc n, out)"
| "put (Suc n) (x # w) out = put n w (x # out)"

fun lz_rest :: "nat \<Rightarrow> nat \<times> char list \<Rightarrow> gzip_error + char list" where
  "lz_rest d (m, out) = lz_copy m d out"

fun lz_window :: "nat \<Rightarrow> nat \<Rightarrow> char list \<Rightarrow> char list option \<Rightarrow> gzip_error + char list" where
  "lz_window n d out None = Inl Bad_Distance"
| "lz_window n d out (Some w) = lz_rest d (put n w out)"

lemma nth_opt_eq: "nth_opt xs i = (if i < length xs then Some (xs ! i) else None)"
  by (induction xs i rule: nth_opt.induct) simp_all

lemma grab_eq:
  "grab d xs acc = (if d \<le> length xs then Some (rev (take d xs) @ acc) else None)"
  by (induction d xs acc rule: grab.induct) simp_all

lemma put_eq: "put n w out = (n - length w, rev (take n w) @ out)"
  by (induction n w out rule: put.induct) simp_all

lemma rev_take_Suc: "j < length w \<Longrightarrow> rev (take (Suc j) w) = w ! j # rev (take j w)"
  by (simp add: take_Suc_conv_app_nth)

lemma lz_copy_prefix:
  assumes "Suc d \<le> length out" and "j \<le> Suc d" and "j \<le> n"
  shows "lz_copy n (Suc d) out
    = lz_copy (n - j) (Suc d) (rev (take j (rev (take (Suc d) out))) @ out)"
  using assms(2,3)
proof (induction j)
  case 0
  then show ?case
    by simp
next
  case (Suc j)
  let ?w = "rev (take (Suc d) out)"
  from Suc.prems have j: "j \<le> d" "j < n"
    by simp_all
  from j obtain m where m: "n - j = Suc m"
    by (cases "n - j") simp_all
  then have m': "n - Suc j = m"
    by simp
  have len: "length ?w = Suc d"
    using assms(1) by simp
  have "?w ! j = take (Suc d) out ! (d - j)"
    using j(1) assms(1) by (simp add: rev_nth)
  also have "\<dots> = out ! (d - j)"
    by simp
  finally have wj: "?w ! j = out ! (d - j)" .
  have nth: "nth_opt (rev (take j ?w) @ out) d = Some (?w ! j)"
    using j(1) assms(1) len wj by (simp add: nth_opt_eq nth_append)
  have "j < length ?w"
    using j(1) len by simp
  then have tk: "rev (take (Suc j) ?w) = ?w ! j # rev (take j ?w)"
    by (rule rev_take_Suc)
  from Suc.IH j have "lz_copy n (Suc d) out
      = lz_copy (Suc m) (Suc d) (rev (take j ?w) @ out)"
    by (simp add: m)
  also have "\<dots> = lz_copy m (Suc d) (?w ! j # rev (take j ?w) @ out)"
    by (simp add: nth)
  finally show ?case
    by (simp only: m' tk append_Cons)
qed

lemma lz_copy_window:
  "lz_copy (Suc n) (Suc d) out = lz_window (Suc n) (Suc d) out (grab (Suc d) out [])"
proof (cases "Suc d \<le> length out")
  case False
  then show ?thesis
    by (simp add: grab_eq nth_opt_eq)
next
  case True
  let ?w = "rev (take (Suc d) out)"
  let ?j = "min (Suc n) (Suc d)"
  have len: "length ?w = Suc d"
    using True by simp
  have "lz_copy (Suc n) (Suc d) out = lz_copy (Suc n - ?j) (Suc d) (rev (take ?j ?w) @ out)"
    by (rule lz_copy_prefix [OF True]) simp_all
  also have "Suc n - ?j = Suc n - length ?w"
    by (simp only: len)
  also have "take ?j ?w = take (Suc n) ?w"
    by (simp only: take_all_iff len min_def) (simp add: True)
  finally show ?thesis
    by (simp only: grab_eq True if_True lz_window.simps put_eq lz_rest.simps append_Nil2)
qed

lemmas lz_copy_code [code] = lz_copy.simps(1,2) lz_copy_window

lemma inflate_codes_length:
  "inflate_codes lt dt bs out = Inr (out', r) \<Longrightarrow> length r \<le> length bs"
proof (induction lt dt bs out rule: inflate_codes.induct)
  case (1 lt dt bs out)
  from "1.prems" obtain s r0 where d: "decode_sym lt bs = Inr (s, r0)"
    by (subst (asm) inflate_codes.simps) (auto split: sum.splits)
  then have l0: "length r0 < length bs"
    by (rule decode_sym_length)
  show ?case
  proof (cases "lit_len_of s")
    case (Literal c)
    with "1.prems" d have "inflate_codes lt dt r0 (c # out) = Inr (out', r)"
      by (subst (asm) inflate_codes.simps) simp
    with "1.IH"(1) [OF d refl Literal] l0 show ?thesis
      by simp
  next
    case End_Of_Block
    with "1.prems" d l0 show ?thesis
      by (subst (asm) inflate_codes.simps) simp
  next
    case Bad_Lit_Len
    with "1.prems" d show ?thesis
      by (subst (asm) inflate_codes.simps) simp
  next
    case (Match_Length xl bl)
    from "1.prems" d Match_Length obtain el r1 ds r2 xd bd ed r3 out1 where
      b: "read_bits xl r0 = Inr (el, r1)"
      and c: "decode_sym dt r1 = Inr (ds, r2)"
      and e: "distance_of ds = Some (xd, bd)"
      and f: "read_bits xd r2 = Inr (ed, r3)"
      and g: "lz_copy (nat (bl + el)) (nat (bd + ed)) out = Inr out1"
      and h: "inflate_codes lt dt r3 out1 = Inr (out', r)"
      by (subst (asm) inflate_codes.simps) (auto split: sum.splits option.splits)
    from "1.IH"(2) [OF d refl Match_Length b refl c refl e refl f refl g h]
    have "length r \<le> length r3" .
    moreover have "length r3 \<le> length r2"
      using f by (rule read_bits_length)
    moreover have "length r2 < length r1"
      using c by (rule decode_sym_length)
    moreover have "length r1 \<le> length r0"
      using b by (rule read_bits_length)
    ultimately show ?thesis
      using l0 by simp
  qed
qed

subsection \<open>Blocks (RFC 1951, sections 3.2.3 to 3.2.7)\<close>

text \<open>The fixed code of block type 1.\<close>

definition fixed_lit_lengths :: "nat list" where
  "fixed_lit_lengths = replicate 144 8 @ replicate 112 9 @ replicate 24 7 @ replicate 8 8"

definition fixed_dist_lengths :: "nat list" where
  "fixed_dist_lengths = replicate 32 5"

text \<open>
  The code of block type 2 is transmitted as code lengths, themselves Huffman coded:
  symbols 0 to 15 are lengths, 16 repeats the previous length 3 to 6 times, 17 and 18
  repeat the length zero 3 to 10 and 11 to 138 times.
\<close>

definition cl_order :: "nat list" where
  "cl_order = [16, 17, 18, 0, 8, 7, 9, 6, 10, 5, 11, 4, 12, 3, 13, 2, 14, 1, 15]"

definition cl_lengths :: "nat list \<Rightarrow> nat list" where
  "cl_lengths cls =
     map (\<lambda>i. case map_of (zip cl_order cls) i of None \<Rightarrow> 0 | Some l \<Rightarrow> l) [0..<19]"

datatype cl_sym = Code_Length nat | Repeat nat nat bool | Bad_CL

definition cl_sym_of :: "int \<Rightarrow> cl_sym" where
  "cl_sym_of s =
     (if 0 \<le> s \<and> s < 16 then Code_Length (nat s)
      else if s = 16 then Repeat 2 3 True
      else if s = 17 then Repeat 3 3 False
      else if s = 18 then Repeat 7 11 False
      else Bad_CL)"

lemma cl_sym_of_Repeat: "cl_sym_of s = Repeat xb base prev \<Longrightarrow> 0 < base"
  by (auto simp: cl_sym_of_def split: if_splits)

text \<open>
  \<open>read_lengths t n acc bs\<close> reads \<open>n\<close> more code lengths; \<open>acc\<close> holds the
  lengths read so far, the last one first.
\<close>

function read_lengths ::
  "htree \<Rightarrow> nat \<Rightarrow> nat list \<Rightarrow> bool list \<Rightarrow> gzip_error + (nat list \<times> bool list)" where
  "read_lengths t n acc bs =
     (if n = 0 then Inr (rev acc, bs)
      else
        (case decode_sym t bs of
           Inl e \<Rightarrow> Inl e
         | Inr (s, r) \<Rightarrow>
             (case cl_sym_of s of
                Code_Length l \<Rightarrow> read_lengths t (n - 1) (l # acc) r
              | Bad_CL \<Rightarrow> Inl Bad_Symbol
              | Repeat xb base prev \<Rightarrow>
                  if prev \<and> acc = [] then Inl Bad_Code_Lengths
                  else
                    (case read_bits xb r of
                       Inl e \<Rightarrow> Inl e
                     | Inr (x, r') \<Rightarrow>
                         if n < base + x then Inl Bad_Code_Lengths
                         else read_lengths t (n - (base + x))
                                (replicate (base + x) (if prev then hd acc else 0) @ acc) r'))))"
  by pat_completeness auto
termination
  by (relation "measure (\<lambda>(t, n, acc, bs). n)") (auto dest: cl_sym_of_Repeat)

declare read_lengths.simps [simp del]

lemma read_lengths_length:
  "read_lengths t n acc bs = Inr (ls, r) \<Longrightarrow> length r \<le> length bs"
proof (induction t n acc bs rule: read_lengths.induct)
  case (1 t n acc bs)
  show ?case
  proof (cases "n = 0")
    case True
    with "1.prems" show ?thesis
      by (subst (asm) read_lengths.simps) simp
  next
    case False
    from "1.prems" False obtain s r0 where d: "decode_sym t bs = Inr (s, r0)"
      by (subst (asm) read_lengths.simps) (auto split: sum.splits)
    then have l0: "length r0 < length bs"
      by (rule decode_sym_length)
    have step: "length r \<le> length r0"
    proof (cases "cl_sym_of s")
      case (Code_Length l)
      with "1.prems" False d have "read_lengths t (n - 1) (l # acc) r0 = Inr (ls, r)"
        by (subst (asm) read_lengths.simps) simp
      with "1.IH"(1) [OF False d refl Code_Length] show ?thesis
        by simp
    next
      case Bad_CL
      with "1.prems" False d show ?thesis
        by (subst (asm) read_lengths.simps) simp
    next
      case (Repeat xb base prev)
      with "1.prems" False d obtain x r' where
        a: "\<not> (prev \<and> acc = [])" and b: "read_bits xb r0 = Inr (x, r')"
        and c: "\<not> n < base + x"
        and e: "read_lengths t (n - (base + x))
                  (replicate (base + x) (if prev then hd acc else 0) @ acc) r' = Inr (ls, r)"
        by (subst (asm) read_lengths.simps) (auto split: sum.splits if_splits)
      from "1.IH"(2) [OF False d refl Repeat a b refl c e] read_bits_length [OF b]
      show ?thesis
        by simp
    qed
    with l0 show ?thesis
      by simp
  qed
qed

lemma read_many_length:
  fixes vs :: "'a::comm_semiring_1 list"
  shows "read_many k w bs = Inr (vs, r) \<Longrightarrow> length r \<le> length bs"
proof (induction k arbitrary: bs vs r)
  case 0
  then show ?case
    by simp
next
  case (Suc k)
  from Suc.prems obtain v :: 'a and r0 and vs0 :: "'a list"
    where a: "read_bits w bs = Inr (v, r0)" and b: "read_many k w r0 = Inr (vs0, r)"
    by (auto split: sum.splits)
  from Suc.IH [OF b] read_bits_length [OF a] show ?case
    by simp
qed

definition dynamic_trees :: "bool list \<Rightarrow> gzip_error + ((htree \<times> htree) \<times> bool list)" where
  "dynamic_trees bs =
     (case read_bits 5 bs of
        Inl e \<Rightarrow> Inl e
      | Inr (hlit, r1) \<Rightarrow>
     (case read_bits 5 r1 of
        Inl e \<Rightarrow> Inl e
      | Inr (hdist, r2) \<Rightarrow>
     (case read_bits 4 r2 of
        Inl e \<Rightarrow> Inl e
      | Inr (hclen, r3) \<Rightarrow>
          if 286 < 257 + hlit \<or> 30 < 1 + hdist then Inl Bad_Code_Lengths
          else
     (case read_many (4 + hclen) 3 r3 of
        Inl e \<Rightarrow> Inl e
      | Inr (cls, r4) \<Rightarrow>
     (case build_tree False (cl_lengths cls) of
        Inl e \<Rightarrow> Inl e
      | Inr ct \<Rightarrow>
     (case read_lengths ct ((257 + hlit) + (1 + hdist)) [] r4 of
        Inl e \<Rightarrow> Inl e
      | Inr (ls, r5) \<Rightarrow>
          if nth_opt ls 256 = Some 0 then Inl Bad_Code_Lengths
          else
     (case build_tree True (take (257 + hlit) ls) of
        Inl e \<Rightarrow> Inl e
      | Inr lt \<Rightarrow>
     (case build_tree True (drop (257 + hlit) ls) of
        Inl e \<Rightarrow> Inl e
      | Inr dt \<Rightarrow> Inr ((lt, dt), r5)))))))))"

definition fixed_trees :: "gzip_error + (htree \<times> htree)" where
  "fixed_trees =
     (case build_tree True fixed_lit_lengths of
        Inl e \<Rightarrow> Inl e
      | Inr lt \<Rightarrow>
          (case build_tree True fixed_dist_lengths of
             Inl e \<Rightarrow> Inl e
           | Inr dt \<Rightarrow> Inr (lt, dt)))"

text \<open>
  A stored block starts at the next byte boundary with its length and the one's
  complement of its length, 16 bits each, followed by that many bytes.
\<close>

definition inflate_stored ::
  "bool list \<Rightarrow> char list \<Rightarrow> gzip_error + (char list \<times> bool list)" where
  "inflate_stored bs out =
     (case read_bits 16 (align bs) of
        Inl e \<Rightarrow> Inl e
      | Inr (len, r1) \<Rightarrow>
          (case read_bits 16 r1 of
             Inl e \<Rightarrow> Inl e
           | Inr (nlen, r2) \<Rightarrow>
               if nlen \<noteq> 65535 - (len :: int) then Inl Bad_Stored_Length
               else
                 (case read_many (nat len) 8 r2 of
                    Inl e \<Rightarrow> Inl e
                  | Inr (data, r3) \<Rightarrow> Inr (rev (map char_of (data :: int list)) @ out, r3))))"

definition inflate_block ::
  "nat \<Rightarrow> bool list \<Rightarrow> char list \<Rightarrow> gzip_error + (char list \<times> bool list)" where
  "inflate_block btype bs out =
     (if btype = 0 then inflate_stored bs out
      else if btype = 1 then
        (case fixed_trees of
           Inl e \<Rightarrow> Inl e
         | Inr (lt, dt) \<Rightarrow> inflate_codes lt dt bs out)
      else if btype = 2 then
        (case dynamic_trees bs of
           Inl e \<Rightarrow> Inl e
         | Inr ((lt, dt), r) \<Rightarrow> inflate_codes lt dt r out)
      else Inl Bad_Block_Type)"

lemma dynamic_trees_length:
  "dynamic_trees bs = Inr (ts, r) \<Longrightarrow> length r \<le> length bs"
  unfolding dynamic_trees_def
  by (auto split: sum.splits if_splits
      dest!: read_bits_length read_many_length read_lengths_length)

lemma align_length: "length (align bs) \<le> length bs"
  by (simp add: align_def)

lemma inflate_stored_length:
  assumes "inflate_stored bs out = Inr (out', r)"
  shows "length r \<le> length bs"
proof -
  from assms obtain len nlen :: int and data :: "int list" and r1 r2
    where a: "read_bits 16 (align bs) = Inr (len, r1)"
      and b: "read_bits 16 r1 = Inr (nlen, r2)"
      and c: "read_many (nat len) 8 r2 = Inr (data, r)"
    unfolding inflate_stored_def
    by (auto split: sum.splits if_splits)
  from read_bits_length [OF a] read_bits_length [OF b] read_many_length [OF c]
    align_length [of bs]
  show ?thesis
    by simp
qed

lemma inflate_block_length:
  "inflate_block btype bs out = Inr (out', r) \<Longrightarrow> length r \<le> length bs"
  unfolding inflate_block_def
  by (auto split: sum.splits if_splits
      dest!: inflate_stored_length inflate_codes_length dynamic_trees_length)

lemma read_bits_Suc_length:
  "read_bits (Suc n) bs = Inr (v, r) \<Longrightarrow> length r < length bs"
  by (cases bs) (auto split: sum.splits dest!: read_bits_length)

function inflate_blocks ::
  "bool list \<Rightarrow> char list \<Rightarrow> gzip_error + (char list \<times> bool list)" where
  "inflate_blocks bs out =
     (case read_bits (Suc 0) bs of
        Inl e \<Rightarrow> Inl e
      | Inr (bfinal, r) \<Rightarrow>
          (case read_bits 2 r of
             Inl e \<Rightarrow> Inl e
           | Inr (btype, r1) \<Rightarrow>
               (case inflate_block btype r1 out of
                  Inl e \<Rightarrow> Inl e
                | Inr (out', r2) \<Rightarrow>
                    if bfinal = (1 :: nat) then Inr (out', r2)
                    else inflate_blocks r2 out')))"
  by pat_completeness auto
termination
proof (relation "measure (\<lambda>(bs, out). length bs)")
  show "wf (measure (\<lambda>(bs, out). length bs))"
    by simp
next
  fix bs r r1 r2 :: "bool list" and out out' :: "char list"
    and x y z and bfinal btype :: nat
  assume "read_bits (Suc 0) bs = Inr x" and "(bfinal, r) = x"
    and "read_bits 2 r = Inr y" and "(btype, r1) = y"
    and "inflate_block btype r1 out = Inr z" and "(out', r2) = z"
  then have "length r < length bs" and "length r1 \<le> length r" and "length r2 \<le> length r1"
    using read_bits_Suc_length [of 0 bs bfinal r] read_bits_length [of 2 r btype r1]
      inflate_block_length [of btype r1 out out' r2]
    by simp_all
  then show "((r2, out'), bs, out) \<in> measure (\<lambda>(bs, out). length bs)"
    by simp
qed

declare inflate_blocks.simps [simp del]

subsection \<open>The gzip member (RFC 1952, section 2.3)\<close>

text \<open>
  The fixed part of the header is ten bytes: the two magic bytes, the compression
  method, the flags, four bytes of modification time, the extra flags and the operating
  system.  The flags announce the optional parts that follow in this order: an extra
  field with a two-byte length, a zero-terminated file name, a zero-terminated comment
  and a two-byte CRC of the header.  The three highest flag bits are reserved.
\<close>

fun skip_zstring :: "8 word list \<Rightarrow> gzip_error + 8 word list" where
  "skip_zstring [] = Inl Truncated"
| "skip_zstring (b # bs) = (if b = 0 then Inr bs else skip_zstring bs)"

definition skip_extra :: "8 word list \<Rightarrow> gzip_error + 8 word list" where
  "skip_extra bs =
     (case bs of
        lo # hi # r \<Rightarrow>
          (let xlen = unat lo + 256 * unat hi
           in if length r < xlen then Inl Truncated else Inr (drop xlen r))
      | _ \<Rightarrow> Inl Truncated)"

definition check_hcrc :: "8 word list \<Rightarrow> 8 word list \<Rightarrow> gzip_error + 8 word list" where
  "check_hcrc whole bs =
     (case bs of
        lo # hi # r \<Rightarrow>
          (if take 16 (crc32 (map byte_char (take (length whole - length bs) whole)))
                = bits_of_byte lo @ bits_of_byte hi
           then Inr r else Inl Bad_Header_Crc)
      | _ \<Rightarrow> Inl Truncated)"

definition gzip_header :: "8 word list \<Rightarrow> gzip_error + 8 word list" where
  "gzip_header bs =
     (case bs of
        id1 # id2 # cm # flg # mt0 # mt1 # mt2 # mt3 # xfl # os # r \<Rightarrow>
          if \<not> (id1 = 0x1F \<and> id2 = 0x8B) then Inl Bad_Magic
          else if cm \<noteq> 8 then Inl Bad_Method
          else if bit flg 5 \<or> bit flg 6 \<or> bit flg 7 then Inl Bad_Flags
          else
            (case (if bit flg 2 then skip_extra r else Inr r) of
               Inl e \<Rightarrow> Inl e
             | Inr r1 \<Rightarrow>
            (case (if bit flg 3 then skip_zstring r1 else Inr r1) of
               Inl e \<Rightarrow> Inl e
             | Inr r2 \<Rightarrow>
            (case (if bit flg 4 then skip_zstring r2 else Inr r2) of
               Inl e \<Rightarrow> Inl e
             | Inr r3 \<Rightarrow>
                 if bit flg 1 then check_hcrc bs r3 else Inr r3)))
      | _ \<Rightarrow> Inl Truncated)"

text \<open>
  The two fields of the trailer are four bytes each, least significant byte first.
\<close>

fun le32 :: "8 word list \<Rightarrow> nat option" where
  "le32 [b0, b1, b2, b3] = Some (unat b0 + 256 * unat b1 + 65536 * unat b2 + 16777216 * unat b3)"
| "le32 bs = None"

text \<open>
  After the last block the member continues at the next byte boundary with the CRC-32
  of the uncompressed data and its length modulo \<open>2\<^sup>3\<^sup>2\<close>, both least
  significant byte first.  \<open>gunzip\<close> accepts exactly one member: bytes after the
  trailer are an error.  The decompressed bytes are returned as characters.
\<close>

definition gunzip :: "8 word list \<Rightarrow> gzip_error + char list" where
  "gunzip bs =
     (case gzip_header bs of
        Inl e \<Rightarrow> Inl e
      | Inr r \<Rightarrow>
          (case inflate_blocks (bits_of_bytes r) [] of
             Inl e \<Rightarrow> Inl e
           | Inr (out, r1) \<Rightarrow>
               (case take_bits 32 (align r1) of
                  Inl e \<Rightarrow> Inl e
                | Inr (crc, r2) \<Rightarrow>
                    (case read_bits 32 r2 of
                       Inl e \<Rightarrow> Inl e
                     | Inr (isize, r3) \<Rightarrow>
                         if crc \<noteq> crc32 (rev out) then Inl Crc_Mismatch
                         else if isize \<noteq> int (length out) mod 2 ^ 32
                         then Inl Size_Mismatch
                         else if r3 \<noteq> [] then Inl Trailing_Data
                         else Inr (rev out)))))"

section \<open>Equations for evaluation\<close>

text \<open>
  The decoder above is written with nested case distinctions.  For evaluation on a
  concrete stream each case distinction on an intermediate result becomes a function
  defined by pattern matching on that result, so that the stream and the output are
  passed on unchanged and every equation applies to arguments already evaluated.  Each
  equation below is a consequence of the definitions.
\<close>

subsection \<open>Bits and symbols\<close>

definition shift_in ::
  "bool \<Rightarrow> gzip_error + ('a::comm_semiring_1 \<times> bool list) \<Rightarrow> gzip_error + ('a \<times> bool list)" where
  "shift_in b res = (case res of Inl e \<Rightarrow> Inl e | Inr (v, r) \<Rightarrow> Inr (of_bool b + 2 * v, r))"

lemma shift_in_code [code]:
  "shift_in b (Inl e) = Inl e"
  "shift_in b (Inr (v, r)) = Inr (of_bool b + 2 * v, r)"
  by (simp_all add: shift_in_def)

lemma read_bits_code [code]:
  "read_bits 0 bs = Inr (0, bs)"
  "read_bits (Suc n) [] = Inl Truncated"
  "read_bits (Suc n) (b # bs) = shift_in b (read_bits n bs)"
  by (simp_all add: shift_in_def)

lemma decode_sym_code [code]:
  "decode_sym t [] = Inl Truncated"
  "decode_sym Empty (b # bs) = Inl Bad_Symbol"
  "decode_sym (Leaf x) (b # bs) = Inl Bad_Symbol"
  "decode_sym (Node Empty r) (False # bs) = Inl Bad_Symbol"
  "decode_sym (Node (Leaf s) r) (False # bs) = Inr (s, bs)"
  "decode_sym (Node (Node l1 l2) r) (False # bs) = decode_sym (Node l1 l2) bs"
  "decode_sym (Node l Empty) (True # bs) = Inl Bad_Symbol"
  "decode_sym (Node l (Leaf s)) (True # bs) = Inr (s, bs)"
  "decode_sym (Node l (Node r1 r2)) (True # bs) = decode_sym (Node r1 r2) bs"
  by simp_all

subsection \<open>Symbols of a compressed block\<close>

definition ic_copy ::
  "htree \<Rightarrow> htree \<Rightarrow> bool list \<Rightarrow> gzip_error + char list
    \<Rightarrow> gzip_error + (char list \<times> bool list)" where
  "ic_copy lt dt r3 res =
     (case res of Inl e \<Rightarrow> Inl e | Inr out' \<Rightarrow> inflate_codes lt dt r3 out')"

definition ic_dist_extra ::
  "htree \<Rightarrow> htree \<Rightarrow> char list \<Rightarrow> int \<Rightarrow> int \<Rightarrow> gzip_error + (int \<times> bool list)
    \<Rightarrow> gzip_error + (char list \<times> bool list)" where
  "ic_dist_extra lt dt out len bd res =
     (case res of
        Inl e \<Rightarrow> Inl e
      | Inr (ed, r3) \<Rightarrow> ic_copy lt dt r3 (lz_copy (nat len) (nat (bd + ed)) out))"

definition ic_dist_code ::
  "htree \<Rightarrow> htree \<Rightarrow> char list \<Rightarrow> int \<Rightarrow> bool list \<Rightarrow> (nat \<times> int) option
    \<Rightarrow> gzip_error + (char list \<times> bool list)" where
  "ic_dist_code lt dt out len r2 c =
     (case c of
        None \<Rightarrow> Inl Bad_Symbol
      | Some (xd, bd) \<Rightarrow> ic_dist_extra lt dt out len bd (read_bits xd r2))"

definition ic_dist_sym ::
  "htree \<Rightarrow> htree \<Rightarrow> char list \<Rightarrow> int \<Rightarrow> gzip_error + (int \<times> bool list)
    \<Rightarrow> gzip_error + (char list \<times> bool list)" where
  "ic_dist_sym lt dt out len res =
     (case res of
        Inl e \<Rightarrow> Inl e
      | Inr (ds, r2) \<Rightarrow> ic_dist_code lt dt out len r2 (distance_of ds))"

definition ic_len_extra ::
  "htree \<Rightarrow> htree \<Rightarrow> char list \<Rightarrow> int \<Rightarrow> gzip_error + (int \<times> bool list)
    \<Rightarrow> gzip_error + (char list \<times> bool list)" where
  "ic_len_extra lt dt out bl res =
     (case res of
        Inl e \<Rightarrow> Inl e
      | Inr (el, r1) \<Rightarrow> ic_dist_sym lt dt out (bl + el) (decode_sym dt r1))"

definition ic_lit_len ::
  "htree \<Rightarrow> htree \<Rightarrow> char list \<Rightarrow> bool list \<Rightarrow> lit_len
    \<Rightarrow> gzip_error + (char list \<times> bool list)" where
  "ic_lit_len lt dt out r c =
     (case c of
        Literal x \<Rightarrow> inflate_codes lt dt r (x # out)
      | End_Of_Block \<Rightarrow> Inr (out, r)
      | Bad_Lit_Len \<Rightarrow> Inl Bad_Symbol
      | Match_Length xl bl \<Rightarrow> ic_len_extra lt dt out bl (read_bits xl r))"

definition ic_sym ::
  "htree \<Rightarrow> htree \<Rightarrow> char list \<Rightarrow> gzip_error + (int \<times> bool list)
    \<Rightarrow> gzip_error + (char list \<times> bool list)" where
  "ic_sym lt dt out res =
     (case res of
        Inl e \<Rightarrow> Inl e
      | Inr (s, r) \<Rightarrow> ic_lit_len lt dt out r (lit_len_of s))"

lemma inflate_codes_code [code]:
  "inflate_codes lt dt bs out = ic_sym lt dt out (decode_sym lt bs)"
  by (subst inflate_codes.simps)
     (simp add: ic_sym_def ic_lit_len_def ic_len_extra_def ic_dist_sym_def ic_dist_code_def
        ic_dist_extra_def ic_copy_def
        split: sum.splits prod.splits lit_len.splits option.splits)

lemma ic_sym_code [code]:
  "ic_sym lt dt out (Inl e) = Inl e"
  "ic_sym lt dt out (Inr (s, r)) = ic_lit_len lt dt out r (lit_len_of s)"
  by (simp_all add: ic_sym_def)

lemma ic_lit_len_code [code]:
  "ic_lit_len lt dt out r (Literal x) = inflate_codes lt dt r (x # out)"
  "ic_lit_len lt dt out r End_Of_Block = Inr (out, r)"
  "ic_lit_len lt dt out r Bad_Lit_Len = Inl Bad_Symbol"
  "ic_lit_len lt dt out r (Match_Length xl bl) = ic_len_extra lt dt out bl (read_bits xl r)"
  by (simp_all add: ic_lit_len_def)

lemma ic_len_extra_code [code]:
  "ic_len_extra lt dt out bl (Inl e) = Inl e"
  "ic_len_extra lt dt out bl (Inr (el, r1)) = ic_dist_sym lt dt out (bl + el) (decode_sym dt r1)"
  by (simp_all add: ic_len_extra_def)

lemma ic_dist_sym_code [code]:
  "ic_dist_sym lt dt out len (Inl e) = Inl e"
  "ic_dist_sym lt dt out len (Inr (ds, r2)) = ic_dist_code lt dt out len r2 (distance_of ds)"
  by (simp_all add: ic_dist_sym_def)

lemma ic_dist_code_code [code]:
  "ic_dist_code lt dt out len r2 None = Inl Bad_Symbol"
  "ic_dist_code lt dt out len r2 (Some (xd, bd)) = ic_dist_extra lt dt out len bd (read_bits xd r2)"
  by (simp_all add: ic_dist_code_def)

lemma ic_dist_extra_code [code]:
  "ic_dist_extra lt dt out len bd (Inl e) = Inl e"
  "ic_dist_extra lt dt out len bd (Inr (ed, r3)) =
     ic_copy lt dt r3 (lz_copy (nat len) (nat (bd + ed)) out)"
  by (simp_all add: ic_dist_extra_def)

lemma ic_copy_code [code]:
  "ic_copy lt dt r3 (Inl e) = Inl e"
  "ic_copy lt dt r3 (Inr out') = inflate_codes lt dt r3 out'"
  by (simp_all add: ic_copy_def)

subsection \<open>Code lengths of a dynamic block\<close>

definition rl_fill ::
  "htree \<Rightarrow> nat \<Rightarrow> nat list \<Rightarrow> nat \<Rightarrow> nat \<Rightarrow> bool list \<Rightarrow> bool
    \<Rightarrow> gzip_error + (nat list \<times> bool list)" where
  "rl_fill t n acc v k r over =
     (if over then Inl Bad_Code_Lengths else read_lengths t (n - k) (replicate k v @ acc) r)"

definition rl_repeat ::
  "htree \<Rightarrow> nat \<Rightarrow> nat list \<Rightarrow> nat \<Rightarrow> nat option \<Rightarrow> gzip_error + (nat \<times> bool list)
    \<Rightarrow> gzip_error + (nat list \<times> bool list)" where
  "rl_repeat t n acc base v res =
     (case v of
        None \<Rightarrow> Inl Bad_Code_Lengths
      | Some v' \<Rightarrow>
          (case res of
             Inl e \<Rightarrow> Inl e
           | Inr (x, r) \<Rightarrow> rl_fill t n acc v' (base + x) r (n < base + x)))"

definition repeat_value :: "bool \<Rightarrow> nat list \<Rightarrow> nat option" where
  "repeat_value prev acc =
     (if prev then (case acc of [] \<Rightarrow> None | p # _ \<Rightarrow> Some p) else Some 0)"

definition rl_class ::
  "htree \<Rightarrow> nat \<Rightarrow> nat list \<Rightarrow> bool list \<Rightarrow> cl_sym
    \<Rightarrow> gzip_error + (nat list \<times> bool list)" where
  "rl_class t n acc r c =
     (case c of
        Code_Length l \<Rightarrow> read_lengths t (n - 1) (l # acc) r
      | Bad_CL \<Rightarrow> Inl Bad_Symbol
      | Repeat xb base prev \<Rightarrow>
          rl_repeat t n acc base (repeat_value prev acc) (read_bits xb r))"

definition rl_sym ::
  "htree \<Rightarrow> nat \<Rightarrow> nat list \<Rightarrow> gzip_error + (int \<times> bool list)
    \<Rightarrow> gzip_error + (nat list \<times> bool list)" where
  "rl_sym t n acc res =
     (case res of
        Inl e \<Rightarrow> Inl e
      | Inr (s, r) \<Rightarrow> rl_class t n acc r (cl_sym_of s))"

lemma read_lengths_code [code]:
  "read_lengths t 0 acc bs = Inr (rev acc, bs)"
  "read_lengths t (Suc n) acc bs = rl_sym t (Suc n) acc (decode_sym t bs)"
  by (subst read_lengths.simps,
      simp add: rl_sym_def rl_class_def rl_repeat_def rl_fill_def repeat_value_def
        split: sum.splits prod.splits cl_sym.splits list.splits)+

lemma rl_sym_code [code]:
  "rl_sym t n acc (Inl e) = Inl e"
  "rl_sym t n acc (Inr (s, r)) = rl_class t n acc r (cl_sym_of s)"
  by (simp_all add: rl_sym_def)

lemma rl_class_code [code]:
  "rl_class t n acc r (Code_Length l) = read_lengths t (n - 1) (l # acc) r"
  "rl_class t n acc r Bad_CL = Inl Bad_Symbol"
  "rl_class t n acc r (Repeat xb base prev) =
     rl_repeat t n acc base (repeat_value prev acc) (read_bits xb r)"
  by (simp_all add: rl_class_def)

lemma rl_repeat_code [code]:
  "rl_repeat t n acc base None res = Inl Bad_Code_Lengths"
  "rl_repeat t n acc base (Some v) (Inl e) = Inl e"
  "rl_repeat t n acc base (Some v) (Inr (x, r)) = rl_fill t n acc v (base + x) r (n < base + x)"
  by (simp_all add: rl_repeat_def)

lemma rl_fill_code [code]:
  "rl_fill t n acc v k r True = Inl Bad_Code_Lengths"
  "rl_fill t n acc v k r False = read_lengths t (n - k) (replicate k v @ acc) r"
  by (simp_all add: rl_fill_def)

subsection \<open>Blocks\<close>

definition rm_cons ::
  "'a \<Rightarrow> gzip_error + ('a list \<times> bool list) \<Rightarrow> gzip_error + ('a list \<times> bool list)" where
  "rm_cons v res = (case res of Inl e \<Rightarrow> Inl e | Inr (vs, r) \<Rightarrow> Inr (v # vs, r))"

definition rm_next ::
  "nat \<Rightarrow> nat \<Rightarrow> gzip_error + ('a::comm_semiring_1 \<times> bool list)
    \<Rightarrow> gzip_error + ('a list \<times> bool list)" where
  "rm_next k w res =
     (case res of Inl e \<Rightarrow> Inl e | Inr (v, r) \<Rightarrow> rm_cons v (read_many k w r))"

lemma read_many_code [code]:
  "read_many 0 w bs = Inr ([], bs)"
  "read_many (Suc k) w bs = rm_next k w (read_bits w bs)"
  by (simp_all add: rm_next_def rm_cons_def split: sum.splits)

lemma rm_next_code [code]:
  "rm_next k w (Inl e) = Inl e"
  "rm_next k w (Inr (v, r)) = rm_cons v (read_many k w r)"
  by (simp_all add: rm_next_def)

lemma rm_cons_code [code]:
  "rm_cons v (Inl e) = Inl e"
  "rm_cons v (Inr (vs, r)) = Inr (v # vs, r)"
  by (simp_all add: rm_cons_def)

definition dyn_done ::
  "bool list \<Rightarrow> bool \<Rightarrow> gzip_error + htree \<Rightarrow> gzip_error + htree
    \<Rightarrow> gzip_error + ((htree \<times> htree) \<times> bool list)" where
  "dyn_done r no_end lt dt =
     (if no_end then Inl Bad_Code_Lengths
      else
        (case lt of
           Inl e \<Rightarrow> Inl e
         | Inr lt' \<Rightarrow> (case dt of Inl e \<Rightarrow> Inl e | Inr dt' \<Rightarrow> Inr ((lt', dt'), r))))"

definition dyn_trees ::
  "nat \<Rightarrow> gzip_error + (nat list \<times> bool list) \<Rightarrow> gzip_error + ((htree \<times> htree) \<times> bool list)" where
  "dyn_trees hlit res =
     (case res of
        Inl e \<Rightarrow> Inl e
      | Inr (ls, r) \<Rightarrow>
          dyn_done r (nth_opt ls 256 = Some 0) (build_tree True (take (257 + hlit) ls))
            (build_tree True (drop (257 + hlit) ls)))"

definition dyn_lengths ::
  "nat \<Rightarrow> nat \<Rightarrow> bool list \<Rightarrow> gzip_error + htree
    \<Rightarrow> gzip_error + ((htree \<times> htree) \<times> bool list)" where
  "dyn_lengths hlit hdist r res =
     (case res of
        Inl e \<Rightarrow> Inl e
      | Inr ct \<Rightarrow> dyn_trees hlit (read_lengths ct ((257 + hlit) + (1 + hdist)) [] r))"

definition dyn_code_tree ::
  "nat \<Rightarrow> nat \<Rightarrow> gzip_error + (nat list \<times> bool list)
    \<Rightarrow> gzip_error + ((htree \<times> htree) \<times> bool list)" where
  "dyn_code_tree hlit hdist res =
     (case res of
        Inl e \<Rightarrow> Inl e
      | Inr (cls, r) \<Rightarrow> dyn_lengths hlit hdist r (build_tree False (cl_lengths cls)))"

definition dyn_counts ::
  "nat \<Rightarrow> nat \<Rightarrow> nat \<Rightarrow> bool list \<Rightarrow> bool
    \<Rightarrow> gzip_error + ((htree \<times> htree) \<times> bool list)" where
  "dyn_counts hlit hdist hclen r over =
     (if over then Inl Bad_Code_Lengths
      else dyn_code_tree hlit hdist (read_many (4 + hclen) 3 r))"

definition dyn_hclen ::
  "nat \<Rightarrow> nat \<Rightarrow> gzip_error + (nat \<times> bool list)
    \<Rightarrow> gzip_error + ((htree \<times> htree) \<times> bool list)" where
  "dyn_hclen hlit hdist res =
     (case res of
        Inl e \<Rightarrow> Inl e
      | Inr (hclen, r) \<Rightarrow>
          dyn_counts hlit hdist hclen r (286 < 257 + hlit \<or> 30 < 1 + hdist))"

definition dyn_hdist ::
  "nat \<Rightarrow> gzip_error + (nat \<times> bool list) \<Rightarrow> gzip_error + ((htree \<times> htree) \<times> bool list)" where
  "dyn_hdist hlit res =
     (case res of
        Inl e \<Rightarrow> Inl e
      | Inr (hdist, r) \<Rightarrow> dyn_hclen hlit hdist (read_bits 4 r))"

definition dyn_hlit ::
  "gzip_error + (nat \<times> bool list) \<Rightarrow> gzip_error + ((htree \<times> htree) \<times> bool list)" where
  "dyn_hlit res =
     (case res of
        Inl e \<Rightarrow> Inl e
      | Inr (hlit, r) \<Rightarrow> dyn_hdist hlit (read_bits 5 r))"

lemma dynamic_trees_code [code]: "dynamic_trees bs = dyn_hlit (read_bits 5 bs)"
  unfolding dynamic_trees_def dyn_hlit_def dyn_hdist_def dyn_hclen_def dyn_counts_def
    dyn_code_tree_def dyn_lengths_def dyn_trees_def dyn_done_def
  by (simp split: sum.splits prod.splits)

lemma dyn_hlit_code [code]:
  "dyn_hlit (Inl e) = Inl e"
  "dyn_hlit (Inr (hlit, r)) = dyn_hdist hlit (read_bits 5 r)"
  by (simp_all add: dyn_hlit_def)

lemma dyn_hdist_code [code]:
  "dyn_hdist hlit (Inl e) = Inl e"
  "dyn_hdist hlit (Inr (hdist, r)) = dyn_hclen hlit hdist (read_bits 4 r)"
  by (simp_all add: dyn_hdist_def)

lemma dyn_hclen_code [code]:
  "dyn_hclen hlit hdist (Inl e) = Inl e"
  "dyn_hclen hlit hdist (Inr (hclen, r)) =
     dyn_counts hlit hdist hclen r (286 < 257 + hlit \<or> 30 < 1 + hdist)"
  by (simp_all add: dyn_hclen_def)

lemma dyn_counts_code [code]:
  "dyn_counts hlit hdist hclen r True = Inl Bad_Code_Lengths"
  "dyn_counts hlit hdist hclen r False = dyn_code_tree hlit hdist (read_many (4 + hclen) 3 r)"
  by (simp_all add: dyn_counts_def)

lemma dyn_code_tree_code [code]:
  "dyn_code_tree hlit hdist (Inl e) = Inl e"
  "dyn_code_tree hlit hdist (Inr (cls, r)) =
     dyn_lengths hlit hdist r (build_tree False (cl_lengths cls))"
  by (simp_all add: dyn_code_tree_def)

lemma dyn_lengths_code [code]:
  "dyn_lengths hlit hdist r (Inl e) = Inl e"
  "dyn_lengths hlit hdist r (Inr ct) =
     dyn_trees hlit (read_lengths ct ((257 + hlit) + (1 + hdist)) [] r)"
  by (simp_all add: dyn_lengths_def)

lemma dyn_trees_code [code]:
  "dyn_trees hlit (Inl e) = Inl e"
  "dyn_trees hlit (Inr (ls, r)) =
     dyn_done r (nth_opt ls 256 = Some 0) (build_tree True (take (257 + hlit) ls))
       (build_tree True (drop (257 + hlit) ls))"
  by (simp_all add: dyn_trees_def)

lemma dyn_done_code [code]:
  "dyn_done r True lt dt = Inl Bad_Code_Lengths"
  "dyn_done r False (Inl e) dt = Inl e"
  "dyn_done r False (Inr lt') (Inl e) = Inl e"
  "dyn_done r False (Inr lt') (Inr dt') = Inr ((lt', dt'), r)"
  by (simp_all add: dyn_done_def)

definition ib_codes ::
  "char list \<Rightarrow> gzip_error + ((htree \<times> htree) \<times> bool list)
    \<Rightarrow> gzip_error + (char list \<times> bool list)" where
  "ib_codes out res =
     (case res of Inl e \<Rightarrow> Inl e | Inr ((lt, dt), r) \<Rightarrow> inflate_codes lt dt r out)"

definition ib_fixed ::
  "bool list \<Rightarrow> char list \<Rightarrow> gzip_error + (htree \<times> htree)
    \<Rightarrow> gzip_error + (char list \<times> bool list)" where
  "ib_fixed bs out res =
     (case res of Inl e \<Rightarrow> Inl e | Inr (lt, dt) \<Rightarrow> inflate_codes lt dt bs out)"

lemma inflate_block_code [code]:
  "inflate_block 0 bs out = inflate_stored bs out"
  "inflate_block (Suc 0) bs out = ib_fixed bs out fixed_trees"
  "inflate_block (Suc (Suc 0)) bs out = ib_codes out (dynamic_trees bs)"
  "inflate_block (Suc (Suc (Suc n))) bs out = Inl Bad_Block_Type"
  by (simp_all add: inflate_block_def ib_fixed_def ib_codes_def split: sum.splits)

lemma ib_codes_code [code]:
  "ib_codes out (Inl e) = Inl e"
  "ib_codes out (Inr ((lt, dt), r)) = inflate_codes lt dt r out"
  by (simp_all add: ib_codes_def)

lemma ib_fixed_code [code]:
  "ib_fixed bs out (Inl e) = Inl e"
  "ib_fixed bs out (Inr (lt, dt)) = inflate_codes lt dt bs out"
  by (simp_all add: ib_fixed_def)

definition ibs_loop ::
  "char list \<Rightarrow> bool list \<Rightarrow> bool \<Rightarrow> gzip_error + (char list \<times> bool list)" where
  "ibs_loop out r final = (if final then Inr (out, r) else inflate_blocks r out)"

definition ibs_next ::
  "nat \<Rightarrow> gzip_error + (char list \<times> bool list) \<Rightarrow> gzip_error + (char list \<times> bool list)" where
  "ibs_next bfinal res =
     (case res of Inl e \<Rightarrow> Inl e | Inr (out, r) \<Rightarrow> ibs_loop out r (bfinal = 1))"

definition ibs_type ::
  "char list \<Rightarrow> nat \<Rightarrow> gzip_error + (nat \<times> bool list)
    \<Rightarrow> gzip_error + (char list \<times> bool list)" where
  "ibs_type out bfinal res =
     (case res of
        Inl e \<Rightarrow> Inl e
      | Inr (btype, r) \<Rightarrow> ibs_next bfinal (inflate_block btype r out))"

definition ibs_final ::
  "char list \<Rightarrow> gzip_error + (nat \<times> bool list) \<Rightarrow> gzip_error + (char list \<times> bool list)" where
  "ibs_final out res =
     (case res of
        Inl e \<Rightarrow> Inl e
      | Inr (bfinal, r) \<Rightarrow> ibs_type out bfinal (read_bits 2 r))"

lemma inflate_blocks_code [code]:
  "inflate_blocks bs out = ibs_final out (read_bits (Suc 0) bs)"
  by (subst inflate_blocks.simps)
     (simp add: ibs_final_def ibs_type_def ibs_next_def ibs_loop_def
        split: sum.splits prod.splits)

lemma ibs_final_code [code]:
  "ibs_final out (Inl e) = Inl e"
  "ibs_final out (Inr (bfinal, r)) = ibs_type out bfinal (read_bits 2 r)"
  by (simp_all add: ibs_final_def)

lemma ibs_type_code [code]:
  "ibs_type out bfinal (Inl e) = Inl e"
  "ibs_type out bfinal (Inr (btype, r)) = ibs_next bfinal (inflate_block btype r out)"
  by (simp_all add: ibs_type_def)

lemma ibs_next_code [code]:
  "ibs_next bfinal (Inl e) = Inl e"
  "ibs_next bfinal (Inr (out, r)) = ibs_loop out r (bfinal = 1)"
  by (simp_all add: ibs_next_def)

lemma ibs_loop_code [code]:
  "ibs_loop out r True = Inr (out, r)"
  "ibs_loop out r False = inflate_blocks r out"
  by (simp_all add: ibs_loop_def)

subsection \<open>The decoder on small members\<close>

text \<open>
  The polynomial and the check value of CRC-32, and the decoder on members with a
  stored block, with blocks of the fixed code, with a match that overlaps its own
  output, with a wrong CRC and with a missing last byte.
\<close>

lemma crc_poly_value: "crc_poly = map (bit (0xEDB88320 :: int)) [0..<32]"
  by code_simp

lemma crc32_check_value: "crc32 ''123456789'' = map (bit (0xCBF43926 :: int)) [0..<32]"
  by code_simp

lemma gunzip_stored_example:
  "gunzip [31, 139, 8, 0, 0, 0, 0, 0, 0, 3, 1, 5, 0, 250, 255, 104, 101, 108, 108, 111,
           134, 166, 16, 54, 5, 0, 0, 0] = Inr ''hello''"
  by code_simp

lemma gunzip_fixed_example:
  "gunzip [31, 139, 8, 0, 0, 0, 0, 0, 0, 3, 75, 76, 74, 78, 132, 33, 0,
           52, 42, 110, 90, 12, 0, 0, 0] = Inr ''abcabcabcabc''"
  by code_simp

lemma gunzip_overlap_example:
  "gunzip [31, 139, 8, 0, 0, 0, 0, 0, 0, 3, 75, 76, 132, 1, 0,
           240, 205, 17, 76, 10, 0, 0, 0] = Inr ''aaaaaaaaaa''"
  by code_simp

lemma gunzip_crc_example:
  "gunzip [31, 139, 8, 0, 0, 0, 0, 0, 0, 3, 1, 5, 0, 250, 255, 104, 101, 108, 108, 111,
           134, 166, 16, 55, 5, 0, 0, 0] = Inl Crc_Mismatch"
  by code_simp

lemma gunzip_truncated_example:
  "gunzip [31, 139, 8, 0, 0, 0, 0, 0, 0, 3, 75, 76, 74, 78, 132, 33, 0,
           52, 42, 110, 90, 12, 0, 0] = Inl Truncated"
  by code_simp

section \<open>Properties of the two constants\<close>

subsection \<open>The byte array\<close>

lemma init_length: "length JS_SLIDER_GZIP_init = 869"
  by (simp add: JS_SLIDER_GZIP_init_def)

lemma init_range: "list_all fits_uint8 JS_SLIDER_GZIP_init"
  by (simp add: JS_SLIDER_GZIP_init_def fits_uint8_def)

lemma array_init_exact:
  "array_init JS_SLIDER_GZIP_size JS_SLIDER_GZIP_init = Some (map word_of_int JS_SLIDER_GZIP_init)"
  by (simp add: array_init_def JS_SLIDER_GZIP_size_def init_length init_range)

lemma JS_SLIDER_GZIP_eq: "JS_SLIDER_GZIP = map word_of_int JS_SLIDER_GZIP_init"
  by (simp add: JS_SLIDER_GZIP_def array_init_exact)

lemma uint_of_fits_uint8: "fits_uint8 v \<Longrightarrow> uint (word_of_int v :: 8 word) = v"
  by (simp add: fits_uint8_def uint_word_of_int take_bit_eq_mod)

lemma map_uint_of_int:
  "list_all fits_uint8 vs \<Longrightarrow> map uint (map word_of_int vs :: 8 word list) = vs"
  by (induction vs) (simp_all add: uint_of_fits_uint8)

text \<open>
  Claim C5.  The declared size of \<open>JS_SLIDER_GZIP\<close> is 869 and its initialiser list
  has exactly 869 values, each between 0 and 255: the array is the list of initialisers,
  no element is filled in with zero and no initialiser is changed by the conversion to
  \<^verbatim>\<open>uint8_t\<close>.
\<close>

theorem JS_SLIDER_GZIP_initialiser_exact:
  "JS_SLIDER_GZIP_size = 869
   \<and> length JS_SLIDER_GZIP_init = 869
   \<and> list_all fits_uint8 JS_SLIDER_GZIP_init
   \<and> array_init JS_SLIDER_GZIP_size JS_SLIDER_GZIP_init = Some JS_SLIDER_GZIP
   \<and> length JS_SLIDER_GZIP = 869
   \<and> map uint JS_SLIDER_GZIP = JS_SLIDER_GZIP_init"
proof -
  have a: "array_init JS_SLIDER_GZIP_size JS_SLIDER_GZIP_init = Some JS_SLIDER_GZIP"
    by (simp only: array_init_exact JS_SLIDER_GZIP_eq)
  have b: "length JS_SLIDER_GZIP = 869"
    by (simp add: JS_SLIDER_GZIP_eq init_length)
  have c: "map uint JS_SLIDER_GZIP = JS_SLIDER_GZIP_init"
    unfolding JS_SLIDER_GZIP_eq using init_range by (rule map_uint_of_int)
  from a b c init_length init_range show ?thesis
    by (simp add: JS_SLIDER_GZIP_size_def)
qed

subsection \<open>The string\<close>

lemma length_script: "length JS_SLIDER_script = 2868"
  by (simp add: JS_SLIDER_script_def)

lemma length_JS_SLIDER: "length JS_SLIDER = 2870"
  by (simp add: JS_SLIDER_def length_script)

lemma script_no_NUL: "CHR 0x00 \<notin> set JS_SLIDER_script"
  by (simp add: JS_SLIDER_script_def)

lemma strlen_terminated:
  "CHR 0x00 \<notin> set s \<Longrightarrow> strlen (s @ CHR 0x00 # r) = Some (length s)"
  by (induction s) auto

text \<open>
  Claim C7.  \<open>JS_SLIDER\<close> contains no NUL character, so the scan for the terminator
  of the array finds the length of the whole content, and the characters before the
  terminator are the content.
\<close>

theorem JS_SLIDER_no_NUL:
  "CHR 0x00 \<notin> set JS_SLIDER
   \<and> strlen JS_SLIDER_array = Some (length JS_SLIDER)
   \<and> strlen JS_SLIDER_array = Some 2870
   \<and> take 2870 JS_SLIDER_array = JS_SLIDER"
proof -
  have no: "CHR 0x00 \<notin> set JS_SLIDER"
    using script_no_NUL by (simp add: JS_SLIDER_def)
  then have "strlen JS_SLIDER_array = Some (length JS_SLIDER)"
    unfolding JS_SLIDER_array_def by (rule strlen_terminated)
  with no show ?thesis
    by (simp add: length_JS_SLIDER JS_SLIDER_array_def)
qed

subsection \<open>The size field of the trailer\<close>

lemma init_trailer: "drop 861 JS_SLIDER_GZIP_init = [27, 117, 74, 231, 52, 11, 0, 0]"
  by (simp add: JS_SLIDER_GZIP_init_def)

lemma last_four: "drop 865 JS_SLIDER_GZIP = [52, 11, 0, 0]"
proof -
  have "drop 865 JS_SLIDER_GZIP_init = drop 4 (drop 861 JS_SLIDER_GZIP_init)"
    by simp
  then have "drop 865 JS_SLIDER_GZIP_init = [52, 11, 0, 0]"
    by (simp only: init_trailer) simp
  then show ?thesis
    by (simp add: JS_SLIDER_GZIP_eq drop_map)
qed

text \<open>
  Claim C6, as stated: the last four bytes of \<open>JS_SLIDER_GZIP\<close>, read least
  significant byte first, are 2868, and 2868 is the length of \<open>JS_SLIDER\<close>.  The
  second half fails: \<open>JS_SLIDER\<close> has 2870 characters.
\<close>

theorem isize_is_not_length_of_JS_SLIDER:
  "\<not> (le32 (drop 865 JS_SLIDER_GZIP) = Some 2868 \<and> 2868 = length JS_SLIDER)"
  by (simp add: length_JS_SLIDER)

text \<open>
  Claim C6, amended.  The last four bytes of \<open>JS_SLIDER_GZIP\<close> are 52, 11, 0, 0;
  read least significant byte first they are 2868, the length of the script between
  the line feed that opens and the line feed that closes \<open>JS_SLIDER\<close>, which is the
  length of \<open>JS_SLIDER\<close> less two.
\<close>

theorem isize_is_length_of_script:
  "drop 865 JS_SLIDER_GZIP = [52, 11, 0, 0]
   \<and> le32 (drop 865 JS_SLIDER_GZIP) = Some 2868
   \<and> length JS_SLIDER_script = 2868
   \<and> JS_SLIDER = CHR 0x0A # JS_SLIDER_script @ [CHR 0x0A]
   \<and> length JS_SLIDER = 2868 + 2"
  by (simp add: last_four length_script length_JS_SLIDER JS_SLIDER_def)

subsection \<open>Decompression of the byte array\<close>

lemma init_header:
  "JS_SLIDER_GZIP_init = [31, 139, 8, 0, 19, 56, 231, 94, 2, 255] @ drop 10 JS_SLIDER_GZIP_init"
  by (simp add: JS_SLIDER_GZIP_init_def)

text \<open>A header without optional parts is the ten bytes of its fixed part.\<close>

lemma gzip_header_plain:
  "gzip_header (map word_of_int ([31, 139, 8, 0, m0, m1, m2, m3, xfl, os] @ vs))
     = Inr (map word_of_int vs)"
  by (simp add: gzip_header_def)

lemma header_JS_SLIDER_GZIP:
  "gzip_header JS_SLIDER_GZIP = Inr (map word_of_int (drop 10 JS_SLIDER_GZIP_init))"
  by (subst JS_SLIDER_GZIP_eq, subst init_header) (rule gzip_header_plain)

lemma bits_of_byte_of_int: "bits_of_byte (word_of_int v) = int_bits8 v"
  by (simp add: bits_of_byte_def int_bits8_def bit_word_of_int_iff)

lemma bits_of_bytes_of_int: "bits_of_bytes (map word_of_int vs) = concat (map int_bits8 vs)"
  by (simp add: bits_of_bytes_def bits_of_byte_of_int comp_def)

text \<open>
  The DEFLATE stream of the array is one block with dynamic Huffman codes.  It ends
  three bits before the last eight bytes of the array, and it decodes to the script.
\<close>

lemma inflate_script:
  "inflate_blocks (concat (map int_bits8 (drop 10 JS_SLIDER_GZIP_init))) []
     = Inr (rev JS_SLIDER_script,
            False # False # False # concat (map int_bits8 (drop 861 JS_SLIDER_GZIP_init)))"
  by code_simp

lemma crc32_script:
  "crc32 JS_SLIDER_script
     = [True, True, False, True, True, False, False, False,
        True, False, True, False, True, True, True, False,
        False, True, False, True, False, False, True, False,
        True, True, True, False, False, True, True, True]"
  by code_simp

lemma trailer_fields:
  "take_bits 32
     (align (False # False # False # concat (map int_bits8 (drop 861 JS_SLIDER_GZIP_init))))
     = Inr ([True, True, False, True, True, False, False, False,
             True, False, True, False, True, True, True, False,
             False, True, False, True, False, False, True, False,
             True, True, True, False, False, True, True, True],
            [False, False, True, False, True, True, False, False,
             True, True, False, True, False, False, False, False,
             False, False, False, False, False, False, False, False,
             False, False, False, False, False, False, False, False])"
  by code_simp

lemma trailer_isize:
  "read_bits 32
     [False, False, True, False, True, True, False, False,
      True, True, False, True, False, False, False, False,
      False, False, False, False, False, False, False, False,
      False, False, False, False, False, False, False, False]
     = Inr (2868 :: int, [])"
  by code_simp

lemma gunzip_JS_SLIDER_GZIP: "gunzip JS_SLIDER_GZIP = Inr JS_SLIDER_script"
  by (simp add: gunzip_def header_JS_SLIDER_GZIP bits_of_bytes_of_int inflate_script
      trailer_fields trailer_isize crc32_script length_script)

text \<open>
  Claim C1, as stated: decompressing \<open>JS_SLIDER_GZIP\<close> yields exactly the characters
  of \<open>JS_SLIDER\<close>.  It does not: the result is 2868 bytes long and \<open>JS_SLIDER\<close>
  has 2870.
\<close>

theorem gunzip_is_not_JS_SLIDER:
  "gunzip JS_SLIDER_GZIP \<noteq> Inr JS_SLIDER"
proof
  assume "gunzip JS_SLIDER_GZIP = Inr JS_SLIDER"
  then have "JS_SLIDER_script = JS_SLIDER"
    by (simp add: gunzip_JS_SLIDER_GZIP)
  then have "length JS_SLIDER_script = length JS_SLIDER"
    by simp
  then show False
    by (simp add: length_script length_JS_SLIDER)
qed

text \<open>
  Claim C1, amended.  Decompressing \<open>JS_SLIDER_GZIP\<close> yields exactly the script that
  \<open>JS_SLIDER\<close> holds between the line feed after the opening parenthesis of the raw
  string literal and the line feed before its closing delimiter: \<open>JS_SLIDER\<close> is a
  line feed, the 2868 decompressed bytes and a line feed.
\<close>

theorem gunzip_is_script_of_JS_SLIDER:
  "gunzip JS_SLIDER_GZIP = Inr JS_SLIDER_script
   \<and> JS_SLIDER = CHR 0x0A # JS_SLIDER_script @ [CHR 0x0A]
   \<and> JS_SLIDER_script = butlast (tl JS_SLIDER)
   \<and> length JS_SLIDER_script = 2868
   \<and> length JS_SLIDER = 2870"
  by (simp add: gunzip_JS_SLIDER_GZIP JS_SLIDER_def length_script)

text \<open>
  Claim C2.  Decompression of \<open>JS_SLIDER_GZIP\<close> succeeds: the 869 bytes are one
  gzip member.  They start with the magic bytes and the method DEFLATE, the header has
  no optional part, the DEFLATE stream is valid and ends within three bits of the last
  eight bytes, and these are the CRC-32 and the length of the decompressed data.
\<close>

theorem gunzip_JS_SLIDER_GZIP_succeeds:
  "length JS_SLIDER_GZIP = 869
   \<and> take 3 JS_SLIDER_GZIP = [0x1F, 0x8B, 8]
   \<and> gzip_header JS_SLIDER_GZIP = Inr (drop 10 JS_SLIDER_GZIP)
   \<and> (\<exists>out pad.
         inflate_blocks (bits_of_bytes (drop 10 JS_SLIDER_GZIP)) []
           = Inr (rev out, pad @ bits_of_bytes (drop 861 JS_SLIDER_GZIP))
         \<and> length pad = 3
         \<and> bits_of_bytes (take 4 (drop 861 JS_SLIDER_GZIP)) = crc32 out
         \<and> le32 (drop 865 JS_SLIDER_GZIP) = Some (length out)
         \<and> gunzip JS_SLIDER_GZIP = Inr out)"
proof -
  have len: "length JS_SLIDER_GZIP = 869"
    by (simp add: JS_SLIDER_GZIP_eq init_length)
  have "take 3 JS_SLIDER_GZIP_init = [31, 139, 8]"
    by (subst init_header) simp
  then have magic: "take 3 JS_SLIDER_GZIP = [0x1F, 0x8B, 8]"
    by (simp add: JS_SLIDER_GZIP_eq take_map)
  have hdr: "gzip_header JS_SLIDER_GZIP = Inr (drop 10 JS_SLIDER_GZIP)"
    by (subst header_JS_SLIDER_GZIP) (simp add: JS_SLIDER_GZIP_eq drop_map)
  have infl: "inflate_blocks (bits_of_bytes (drop 10 JS_SLIDER_GZIP)) []
      = Inr (rev JS_SLIDER_script,
             [False, False, False] @ bits_of_bytes (drop 861 JS_SLIDER_GZIP))"
    by (simp add: JS_SLIDER_GZIP_eq drop_map bits_of_bytes_of_int inflate_script)
  have "take 4 (drop 861 JS_SLIDER_GZIP_init) = [27, 117, 74, 231]"
    by (simp add: init_trailer)
  then have "take 4 (drop 861 JS_SLIDER_GZIP) = map word_of_int [27, 117, 74, 231]"
    by (simp only: JS_SLIDER_GZIP_eq drop_map take_map)
  then have "bits_of_bytes (take 4 (drop 861 JS_SLIDER_GZIP))
      = concat (map int_bits8 [27, 117, 74, 231])"
    by (simp only: bits_of_bytes_of_int)
  also have "\<dots> = crc32 JS_SLIDER_script"
    unfolding crc32_script by code_simp
  finally have crc: "bits_of_bytes (take 4 (drop 861 JS_SLIDER_GZIP)) = crc32 JS_SLIDER_script" .
  have size: "le32 (drop 865 JS_SLIDER_GZIP) = Some (length JS_SLIDER_script)"
    by (simp add: last_four length_script)
  from infl crc size gunzip_JS_SLIDER_GZIP
  have "\<exists>out pad.
      inflate_blocks (bits_of_bytes (drop 10 JS_SLIDER_GZIP)) []
        = Inr (rev out, pad @ bits_of_bytes (drop 861 JS_SLIDER_GZIP))
      \<and> length pad = 3
      \<and> bits_of_bytes (take 4 (drop 861 JS_SLIDER_GZIP)) = crc32 out
      \<and> le32 (drop 865 JS_SLIDER_GZIP) = Some (length out)
      \<and> gunzip JS_SLIDER_GZIP = Inr out"
    by (intro exI [of _ JS_SLIDER_script] exI [of _ "[False, False, False]"]) simp
  with len magic hdr show ?thesis
    by (intro conjI)
qed

end
